theory Spec2Isabelle
  imports Main "HOL-Library.Sublist"
begin

section \<open>Text and the string primitives the script uses\<close>

text \<open>
  The script \<^verbatim>\<open>fix-auth-headers.py\<close> works on the text of TypeScript files. A file's
  text is a \<^typ>\<open>string\<close>, one \<^typ>\<open>char\<close> for each code point (code points below 256;
  every pattern and every inserted text of the script is ASCII). The file store holds
  the text as \<^verbatim>\<open>read_text\<close> returns it and \<^verbatim>\<open>write_text\<close> receives it.
\<close>

text \<open>Python's \<^verbatim>\<open>sub in s\<close> on strings: \<open>sub\<close> occurs in \<open>s\<close> at some position.\<close>

fun contains :: "string \<Rightarrow> string \<Rightarrow> bool" where
  "contains [] sub = (sub = [])"
| "contains (c # cs) sub = (prefix sub (c # cs) \<or> contains cs sub)"


section \<open>The fragment of Python's \<^verbatim>\<open>re\<close> that the script uses\<close>

text \<open>
  The six patterns of the script are sequences of literal characters, single characters
  of a class (\<^verbatim>\<open>["']\<close>), greedy repetitions of a class (\<^verbatim>\<open>\s*\<close>, \<^verbatim>\<open>[^)]+\<close>,
  \<^verbatim>\<open>[^"']*\<close>, \<^verbatim>\<open>[^,]+\<close>) and numbered groups. There is no alternation, no anchor and
  no look-around, so whether a pattern matches at a position depends only on the text
  from that position on.
\<close>

datatype cclass =
    Space                 \<comment> \<open>\<^verbatim>\<open>\s\<close>\<close>
  | Among "char list"     \<comment> \<open>\<^verbatim>\<open>[...]\<close>\<close>
  | Except "char list"    \<comment> \<open>\<^verbatim>\<open>[^...]\<close>\<close>

text \<open>
  \<^verbatim>\<open>\s\<close> in a \<^verbatim>\<open>str\<close> pattern is Unicode white space; below code point 256 these are
  tab, line feed, vertical tab, form feed, carriage return, the four separators
  0x1C to 0x1F, the space, 0x85 and 0xA0.
\<close>

definition is_space :: "char \<Rightarrow> bool" where
  "is_space c = (c \<in> set [CHR 0x09, CHR 0x0A, CHR 0x0B, CHR 0x0C, CHR 0x0D,
                            CHR 0x1C, CHR 0x1D, CHR 0x1E, CHR 0x1F, CHR 0x20,
                            CHR 0x85, CHR 0xA0])"

fun in_class :: "cclass \<Rightarrow> char \<Rightarrow> bool" where
  "in_class Space c = is_space c"
| "in_class (Among cs) c = (c \<in> set cs)"
| "in_class (Except cs) c = (c \<notin> set cs)"

datatype item =
    Lit char         \<comment> \<open>a literal character\<close>
  | One cclass       \<comment> \<open>one character of a class\<close>
  | Star cclass      \<comment> \<open>greedy \<^verbatim>\<open>*\<close> on a class\<close>
  | Plus cclass      \<comment> \<open>greedy \<^verbatim>\<open>+\<close> on a class\<close>
  | Open nat         \<comment> \<open>the opening parenthesis of group \<open>n\<close>\<close>
  | Close nat        \<comment> \<open>the closing parenthesis of group \<open>n\<close>\<close>

type_synonym regex = "item list"

text \<open>
  The state of a match attempt: for each group the text that was left when the group
  opened, and the text it captured when it closed.
\<close>

record groups =
  opened :: "nat \<Rightarrow> string"
  captured :: "nat \<Rightarrow> string"

definition no_groups :: groups where
  "no_groups = \<lparr>opened = (\<lambda>_. []), captured = (\<lambda>_. [])\<rparr>"

text \<open>
  A greedy repetition first takes the longest run, then gives characters back one at a
  time, down to its minimum, until the rest of the pattern matches: \<open>backoff k s lo n\<close>
  tries the continuation \<open>k\<close> after \<open>n\<close>, \<open>n - 1\<close>, ..., \<open>lo\<close> characters of \<open>s\<close>.
\<close>

fun backoff :: "(string \<Rightarrow> 'a option) \<Rightarrow> string \<Rightarrow> nat \<Rightarrow> nat \<Rightarrow> 'a option" where
  "backoff k s lo n =
     (case k (drop n s) of
        Some r \<Rightarrow> Some r
      | None \<Rightarrow> if lo < n then backoff k s lo (n - 1) else None)"

declare backoff.simps [simp del]

text \<open>
  \<open>rmatch p s g\<close> matches the pattern \<open>p\<close> at the start of \<open>s\<close>, as \<^verbatim>\<open>re\<close>'s backtracking
  matcher does, and returns the text left after the match with the groups, or \<open>None\<close>.
\<close>

fun rmatch :: "regex \<Rightarrow> string \<Rightarrow> groups \<Rightarrow> (string \<times> groups) option" where
  "rmatch [] s g = Some (s, g)"
| "rmatch (Lit c # r) s g =
     (case s of [] \<Rightarrow> None | x # xs \<Rightarrow> if x = c then rmatch r xs g else None)"
| "rmatch (One cl # r) s g =
     (case s of [] \<Rightarrow> None | x # xs \<Rightarrow> if in_class cl x then rmatch r xs g else None)"
| "rmatch (Star cl # r) s g =
     backoff (\<lambda>t. rmatch r t g) s 0 (length (takeWhile (in_class cl) s))"
| "rmatch (Plus cl # r) s g =
     (if length (takeWhile (in_class cl) s) < 1 then None
      else backoff (\<lambda>t. rmatch r t g) s 1 (length (takeWhile (in_class cl) s)))"
| "rmatch (Open i # r) s g = rmatch r s (g\<lparr>opened := (opened g)(i := s)\<rparr>)"
| "rmatch (Close i # r) s g =
     rmatch r s (g\<lparr>captured := (captured g)
        (i := take (length (opened g i) - length s) (opened g i))\<rparr>)"

text \<open>A replacement template: literal characters and group references \<^verbatim>\<open>\1\<close>, \<^verbatim>\<open>\2\<close>, ...\<close>

datatype tpart = TChr char | TGrp nat

type_synonym template = "tpart list"

fun expand :: "template \<Rightarrow> groups \<Rightarrow> string" where
  "expand [] g = []"
| "expand (TChr c # t) g = c # expand t g"
| "expand (TGrp i # t) g = captured g i @ expand t g"

text \<open>
  \<^verbatim>\<open>re.sub(pattern, repl, s)\<close>: the leftmost match is replaced by the expanded
  template and the search goes on after it; where nothing matches, one character is
  copied. After an empty match the template is emitted and one character is copied
  (in this fragment a pattern whose preferred match at a position is empty has no other
  match there).
\<close>

fun re_sub :: "regex \<Rightarrow> template \<Rightarrow> string \<Rightarrow> string" where
  "re_sub p t [] = (case rmatch p [] no_groups of Some (rest, g) \<Rightarrow> expand t g | None \<Rightarrow> [])"
| "re_sub p t (c # cs) =
     (case rmatch p (c # cs) no_groups of
        Some (rest, g) \<Rightarrow>
          expand t g @ (if length rest \<le> length cs then re_sub p t rest else c # re_sub p t cs)
      | None \<Rightarrow> c # re_sub p t cs)"

definition lit :: "string \<Rightarrow> regex" where
  "lit s = map Lit s"

definition tlit :: "string \<Rightarrow> template" where
  "tlit s = map TChr s"

section \<open>Files\<close>

text \<open>
  The file store maps a path to the text of the file there. \<^verbatim>\<open>read_text\<close> raises when
  the file is missing; \<^verbatim>\<open>write_text\<close> replaces the text, and the store keeps a log of
  the paths written, in order. \<^verbatim>\<open>print\<close> appends a notice to the output.
\<close>

type_synonym path = string

datatype error = FileNotFoundError path

datatype notice = Updated path

record world =
  files :: "path \<Rightarrow> string option"
  writes :: "path list"
  printed :: "notice list"

definition read_text :: "world \<Rightarrow> path \<Rightarrow> error + string" where
  "read_text w p = (case files w p of None \<Rightarrow> Inl (FileNotFoundError p) | Some c \<Rightarrow> Inr c)"

definition write_text :: "world \<Rightarrow> path \<Rightarrow> string \<Rightarrow> world" where
  "write_text w p c = w\<lparr>files := (files w)(p \<mapsto> c), writes := writes w @ [p]\<rparr>"

definition print :: "world \<Rightarrow> notice \<Rightarrow> world" where
  "print w n = w\<lparr>printed := printed w @ [n]\<rparr>"

section \<open>\<^verbatim>\<open>add_apiFetch_to_apiBase\<close>\<close>







section \<open>\<^verbatim>\<open>update_file_with_apiFetch\<close>\<close>

definition ws :: item where
  "ws = Star Space"

definition quote :: cclass where
  \<open>quote = Among [CHR ''"'', CHR 0x27]\<close>

definition not_quote :: cclass where
  \<open>not_quote = Except [CHR ''"'', CHR 0x27]\<close>

text \<open>
  Pattern 1:
  \<^verbatim>\<open>import\s*{\s*apiUrl\s*}\s*from\s*(["\'])([^"\']*apiBase[^"\']*)(["\'])\<close>
\<close>

definition pattern1 :: regex where
  \<open>pattern1 = lit ''import'' @ [ws] @ lit ''{'' @ [ws] @ lit ''apiUrl'' @ [ws] @ lit ''}'' @ [ws]
     @ lit ''from'' @ [ws]
     @ [Open 1, One quote, Close 1]
     @ [Open 2, Star not_quote] @ lit ''apiBase'' @ [Star not_quote, Close 2]
     @ [Open 3, One quote, Close 3]\<close>

definition repl1 :: template where
  \<open>repl1 = tlit ''import { apiUrl, apiFetch } from '' @ [TGrp 1, TGrp 2, TGrp 3]\<close>

text \<open>
  Pattern 2:
  \<^verbatim>\<open>import\s*{\s*API_BASE,\s*apiUrl\s*}\s*from\s*(["\'])([^"\']*apiBase[^"\']*)(["\'])\<close>
\<close>

definition pattern2 :: regex where
  \<open>pattern2 = lit ''import'' @ [ws] @ lit ''{'' @ [ws] @ lit ''API_BASE,'' @ [ws] @ lit ''apiUrl''
     @ [ws] @ lit ''}'' @ [ws] @ lit ''from'' @ [ws]
     @ [Open 1, One quote, Close 1]
     @ [Open 2, Star not_quote] @ lit ''apiBase'' @ [Star not_quote, Close 2]
     @ [Open 3, One quote, Close 3]\<close>

definition repl2 :: template where
  \<open>repl2 = tlit ''import { API_BASE, apiUrl, apiFetch } from '' @ [TGrp 1, TGrp 2, TGrp 3]\<close>

text \<open>
  Pattern 3: \<^verbatim>\<open>fetch\(apiUrl\(([^)]+)\),\s*{\s*credentials:\s*["\']include["\']\s*}\)\<close>
\<close>

definition pattern3 :: regex where
  \<open>pattern3 = lit ''fetch(apiUrl('' @ [Open 1, Plus (Except '')''), Close 1] @ lit ''),'' @ [ws]
     @ lit ''{'' @ [ws] @ lit ''credentials:'' @ [ws] @ [One quote] @ lit ''include''
     @ [One quote] @ [ws] @ lit ''})''\<close>

definition repl3 :: template where
  \<open>repl3 = tlit ''apiFetch('' @ [TGrp 1] @ tlit '')''\<close>

text \<open>Pattern 4: \<^verbatim>\<open>fetch\(apiUrl\(([^)]+)\),\s*{\<close>\<close>

definition pattern4 :: regex where
  \<open>pattern4 = lit ''fetch(apiUrl('' @ [Open 1, Plus (Except '')''), Close 1] @ lit ''),'' @ [ws]
     @ lit ''{''\<close>

definition repl4 :: template where
  \<open>repl4 = tlit ''apiFetch('' @ [TGrp 1] @ tlit '', {''\<close>

text \<open>Pattern 5: \<^verbatim>\<open>fetch\(apiUrl\(([^)]+)\)\)\<close>\<close>

definition pattern5 :: regex where
  \<open>pattern5 = lit ''fetch(apiUrl('' @ [Open 1, Plus (Except '')''), Close 1] @ lit ''))''\<close>

definition repl5 :: template where
  \<open>repl5 = tlit ''apiFetch('' @ [TGrp 1] @ tlit '')''\<close>

text \<open>
  Pattern 6: \<^verbatim>\<open>apiFetch\(([^,]+),\s*{\s*credentials:\s*["\']include["\']\s*}\)\<close>
\<close>

definition pattern6 :: regex where
  \<open>pattern6 = lit ''apiFetch('' @ [Open 1, Plus (Except '',''), Close 1] @ lit '','' @ [ws]
     @ lit ''{'' @ [ws] @ lit ''credentials:'' @ [ws] @ [One quote] @ lit ''include''
     @ [One quote] @ [ws] @ lit ''})''\<close>

definition repl6 :: template where
  \<open>repl6 = tlit ''apiFetch('' @ [TGrp 1] @ tlit '')''\<close>

text \<open>The six substitutions, in the order of the source.\<close>

definition sub1 :: "string \<Rightarrow> string" where
  "sub1 content = re_sub pattern1 repl1 content"

definition sub2 :: "string \<Rightarrow> string" where
  "sub2 content = re_sub pattern2 repl2 content"

definition sub3 :: "string \<Rightarrow> string" where
  "sub3 content = re_sub pattern3 repl3 content"

definition sub4 :: "string \<Rightarrow> string" where
  "sub4 content = re_sub pattern4 repl4 content"

definition sub5 :: "string \<Rightarrow> string" where
  "sub5 content = re_sub pattern5 repl5 content"

definition sub6 :: "string \<Rightarrow> string" where
  "sub6 content = re_sub pattern6 repl6 content"

definition substitutions :: "string \<Rightarrow> string" where
  "substitutions content = sub6 (sub5 (sub4 (sub3 (sub2 (sub1 content)))))"

text \<open>The check at the start of the function: the file uses neither legacy form.\<close>

definition no_legacy_call :: "string \<Rightarrow> bool" where
  "no_legacy_call content =
     (\<not> contains content ''fetch(apiUrl('' \<and> \<not> contains content ''fetch(api'')"

text \<open>
  The text the function ends with: the text read when the check returns early, the
  result of the six substitutions otherwise.
\<close>

definition final_content :: "string \<Rightarrow> string" where
  "final_content original =
     (if no_legacy_call original then original else substitutions original)"

definition update_file_with_apiFetch :: "world \<Rightarrow> path \<Rightarrow> error + (bool \<times> world)" where
  "update_file_with_apiFetch w file_path =
     (case read_text w file_path of
        Inl e \<Rightarrow> Inl e
      | Inr original \<Rightarrow>
          if no_legacy_call original then Inr (False, w)
          else let content = substitutions original in
            if content \<noteq> original
            then Inr (True, print (write_text w file_path content) (Updated file_path))
            else Inr (False, w))"

section \<open>Notions used to state and prove the claims\<close>

text \<open>The characters an item of a pattern can consume.\<close>

fun takes :: "item \<Rightarrow> char \<Rightarrow> bool" where
  "takes (Lit c) x = (x = c)"
| "takes (One cl) x = in_class cl x"
| "takes (Star cl) x = in_class cl x"
| "takes (Plus cl) x = in_class cl x"
| "takes (Open i) x = False"
| "takes (Close i) x = False"




definition credentials_only :: "string \<Rightarrow> string \<Rightarrow> string \<Rightarrow> char \<Rightarrow> char \<Rightarrow> string \<Rightarrow> string" where
  \<open>credentials_only w1 w2 w3 q1 q2 w4 =
     '','' @ w1 @ ''{'' @ w2 @ ''credentials:'' @ w3 @ [q1] @ ''include'' @ [q2] @ w4 @ ''})''\<close>

section \<open>Example inputs\<close>

text \<open>A store with one file, nothing written or printed yet.\<close>

definition single_file :: "path \<Rightarrow> string \<Rightarrow> world" where
  "single_file p c = \<lparr>files = [p \<mapsto> c], writes = [], printed = []\<rparr>"



section \<open>Facts about the string primitives\<close>

















lemma first_occurrence:
  "old \<noteq> [] \<Longrightarrow> contains s old \<Longrightarrow> \<exists>pre post. s = pre @ old @ post \<and> \<not> contains pre old"
proof (induction s)
  case Nil
  then show ?case by simp
next
  case (Cons c cs)
  show ?case
  proof (cases "prefix old (c # cs)")
    case True
    then obtain post where "c # cs = [] @ old @ post" by (auto simp: prefix_def)
    moreover have "\<not> contains [] old" using Cons.prems(1) by simp
    ultimately show ?thesis by blast
  next
    case False
    with Cons obtain pre post where pp: "cs = pre @ old @ post" "\<not> contains pre old" by auto
    have "\<not> prefix old (c # pre)"
      using False pp(1) by (metis append_Cons prefix_append)
    with pp have "c # cs = (c # pre) @ old @ post \<and> \<not> contains (c # pre) old" by simp
    then show ?thesis by blast
  qed
qed















section \<open>Facts about the matcher\<close>

subsection \<open>A greedy repetition that succeeds at its longest run\<close>





subsection \<open>What a successful match says about the text\<close>

lemma backoff_inv:
  "backoff k s lo n = Some r \<Longrightarrow> \<exists>j\<le>n. (lo \<le> j \<or> j = n) \<and> k (drop j s) = Some r"
proof (induction k s lo n rule: backoff.induct)
  case (1 k s lo n)
  show ?case
  proof (cases "k (drop n s)")
    case (Some a)
    with "1.prems" have "a = r" by (subst (asm) backoff.simps) simp
    with Some show ?thesis by blast
  next
    case None
    with "1.prems" have l: "lo < n" and b: "backoff k s lo (n - 1) = Some r"
      by (subst (asm) backoff.simps, simp split: if_splits)+
    from "1.IH"[OF None l b] obtain j where
      j: "j \<le> n - 1" "lo \<le> j \<or> j = n - 1" "k (drop j s) = Some r" by blast
    from j(1,2) l have "j \<le> n \<and> lo \<le> j" by auto
    with j(3) show ?thesis by blast
  qed
qed

lemma rmatch_Star_inv:
  assumes "rmatch (Star cl # r) s g = Some x"
  shows "\<exists>j\<le>length (takeWhile (in_class cl) s). rmatch r (drop j s) g = Some x"
  using assms backoff_inv[of "\<lambda>t. rmatch r t g" s 0 "length (takeWhile (in_class cl) s)" x]
  by simp

lemma rmatch_Plus_inv:
  assumes "rmatch (Plus cl # r) s g = Some x"
  shows "\<exists>j\<le>length (takeWhile (in_class cl) s). 1 \<le> j \<and> rmatch r (drop j s) g = Some x"
proof -
  let ?n = "length (takeWhile (in_class cl) s)"
  from assms have n: "1 \<le> ?n" and b: "backoff (\<lambda>t. rmatch r t g) s 1 ?n = Some x"
    by (auto split: if_splits simp: Suc_le_eq)
  from backoff_inv[OF b] obtain j where
    "j \<le> ?n" "1 \<le> j \<or> j = ?n" "rmatch r (drop j s) g = Some x" by blast
  with n show ?thesis by auto
qed

lemma take_run: "j \<le> length (takeWhile P s) \<Longrightarrow> \<forall>x\<in>set (take j s). P x"
proof -
  assume j: "j \<le> length (takeWhile P s)"
  have "take j s = take j (takeWhile P s)"
    by (metis append_eq_conv_conj j takeWhile_dropWhile_id take_all_iff take_append take_take min.absorb1 append_take_drop_id)
  then show ?thesis
    by (metis in_set_takeD set_takeWhileD)
qed


lemma rmatch_split:
  "rmatch (r1 @ r2) s g = Some x \<Longrightarrow>
   \<exists>m mid g1. s = m @ mid \<and> (\<forall>c\<in>set m. \<exists>it\<in>set r1. takes it c) \<and> rmatch r2 mid g1 = Some x"
proof (induction r1 arbitrary: s g)
  case Nil
  then have "s = [] @ s \<and> (\<forall>c\<in>set []. \<exists>it\<in>set []. takes it c) \<and> rmatch r2 s g = Some x" by simp
  then show ?case by blast
next
  case (Cons it r1)
  show ?case
  proof (cases it)
    case (Lit c)
    with Cons.prems obtain xs where s: "s = c # xs" and m: "rmatch (r1 @ r2) xs g = Some x"
      by (auto split: list.splits if_splits)
    from Cons.IH[OF m] obtain m' mid g1 where
      "xs = m' @ mid" "\<forall>c\<in>set m'. \<exists>it\<in>set r1. takes it c" "rmatch r2 mid g1 = Some x" by blast
    with s Lit have "s = (c # m') @ mid \<and> (\<forall>d\<in>set (c # m'). \<exists>i\<in>set (it # r1). takes i d)
        \<and> rmatch r2 mid g1 = Some x" by auto
    then show ?thesis by blast
  next
    case (One cl)
    with Cons.prems obtain y xs where s: "s = y # xs" "in_class cl y"
      and m: "rmatch (r1 @ r2) xs g = Some x"
      by (auto split: list.splits if_splits)
    from Cons.IH[OF m] obtain m' mid g1 where
      "xs = m' @ mid" "\<forall>c\<in>set m'. \<exists>it\<in>set r1. takes it c" "rmatch r2 mid g1 = Some x" by blast
    with s One have "s = (y # m') @ mid \<and> (\<forall>d\<in>set (y # m'). \<exists>i\<in>set (it # r1). takes i d)
        \<and> rmatch r2 mid g1 = Some x" by auto
    then show ?thesis by blast
  next
    case (Star cl)
    with Cons.prems have "rmatch (Star cl # (r1 @ r2)) s g = Some x" by simp
    from rmatch_Star_inv[OF this] obtain j where
      j: "j \<le> length (takeWhile (in_class cl) s)" and m: "rmatch (r1 @ r2) (drop j s) g = Some x"
      by blast
    from Cons.IH[OF m] obtain m' mid g1 where
      d: "drop j s = m' @ mid" "\<forall>c\<in>set m'. \<exists>it\<in>set r1. takes it c" "rmatch r2 mid g1 = Some x"
      by blast
    have "s = (take j s @ m') @ mid" using d(1) by (metis append_assoc append_take_drop_id)
    moreover have "\<forall>d\<in>set (take j s @ m'). \<exists>i\<in>set (it # r1). takes i d"
      using take_run[OF j] d(2) Star by auto
    ultimately show ?thesis using d(3) by blast
  next
    case (Plus cl)
    with Cons.prems have "rmatch (Plus cl # (r1 @ r2)) s g = Some x" by simp
    from rmatch_Plus_inv[OF this] obtain j where
      j: "j \<le> length (takeWhile (in_class cl) s)" and m: "rmatch (r1 @ r2) (drop j s) g = Some x"
      by blast
    from Cons.IH[OF m] obtain m' mid g1 where
      d: "drop j s = m' @ mid" "\<forall>c\<in>set m'. \<exists>it\<in>set r1. takes it c" "rmatch r2 mid g1 = Some x"
      by blast
    have "s = (take j s @ m') @ mid" using d(1) by (metis append_assoc append_take_drop_id)
    moreover have "\<forall>d\<in>set (take j s @ m'). \<exists>i\<in>set (it # r1). takes i d"
      using take_run[OF j] d(2) Plus by auto
    ultimately show ?thesis using d(3) by blast
  next
    case (Open i)
    with Cons.prems have "rmatch (r1 @ r2) s (g\<lparr>opened := (opened g)(i := s)\<rparr>) = Some x" by simp
    from Cons.IH[OF this] show ?thesis by auto
  next
    case (Close i)
    with Cons.prems have "rmatch (r1 @ r2) s (g\<lparr>captured := (captured g)
        (i := take (length (opened g i) - length s) (opened g i))\<rparr>) = Some x" by simp
    from Cons.IH[OF this] show ?thesis by auto
  qed
qed

lemma rmatch_consumed:
  assumes "rmatch r s g = Some (rest, g')"
  shows "\<exists>m. s = m @ rest \<and> (\<forall>c\<in>set m. \<exists>it\<in>set r. takes it c)"
proof -
  from assms have "rmatch (r @ []) s g = Some (rest, g')" by simp
  from rmatch_split[OF this] show ?thesis by auto
qed




subsection \<open>Substitution where nothing matches\<close>






section \<open>Facts about the patterns of the script\<close>

subsection \<open>The end shared by patterns 3 and 6\<close>









subsection \<open>Pattern 6 at a call with the credentials option only\<close>









subsection \<open>Pattern 3 at a call with the credentials option only\<close>


lemma credentials_only_length: "0 < length (credentials_only w1 w2 w3 q1 q2 w4)"
  by (simp add: credentials_only_def)



subsection \<open>Texts in which a pattern has no match\<close>






subsection \<open>A legacy call with the credentials option only, alone in a file\<close>



section \<open>The two functions on a store\<close>


lemma update_file_result:
  "files w p = Some c \<Longrightarrow>
   update_file_with_apiFetch w p =
     (if final_content c \<noteq> c
      then Inr (True, print (write_text w p (final_content c)) (Updated p))
      else Inr (False, w))"
  by (simp add: update_file_with_apiFetch_def read_text_def final_content_def Let_def)

lemma single_file_read: "files (single_file p c) p = Some c"
  by (simp add: single_file_def)

section \<open>Claims about \<^verbatim>\<open>add_apiFetch_to_apiBase\<close>\<close>








section \<open>Claims about \<^verbatim>\<open>update_file_with_apiFetch\<close>\<close>

text \<open>
  C4: on a file that exists the function returns; it returns \<open>True\<close> exactly when the text
  it ends with differs from the text it read; then the file holds the new text and the
  path was written once (and the notice printed); otherwise the store is untouched.
\<close>

theorem update_returns_true_iff_changed:
  assumes "files w p = Some c"
  shows "\<exists>b w'. update_file_with_apiFetch w p = Inr (b, w') \<and>
           (b \<longleftrightarrow> final_content c \<noteq> c) \<and>
           files w' p = Some (final_content c) \<and>
           (b \<longrightarrow> writes w' = writes w @ [p] \<and> printed w' = printed w @ [Updated p]) \<and>
           (\<not> b \<longrightarrow> w' = w)"
  using assms
  by (auto simp: update_file_result write_text_def print_def)

text \<open>Witness for C4: a file with one legacy call.\<close>

theorem update_returns_true_iff_changed_witness:
  \<open>files (single_file ''a.ts'' ''fetch(apiUrl("/x"))'') ''a.ts'' = Some ''fetch(apiUrl("/x"))'' \<and>
   (\<exists>w'. update_file_with_apiFetch (single_file ''a.ts'' ''fetch(apiUrl("/x"))'') ''a.ts'' = Inr (True, w')
      \<and> files w' ''a.ts'' = Some ''apiFetch("/x")'' \<and> writes w' = [''a.ts''])\<close>
proof -
  have h: \<open>files (single_file ''a.ts'' ''fetch(apiUrl("/x"))'') ''a.ts'' = Some ''fetch(apiUrl("/x"))''\<close>
    by (rule single_file_read)
  have fc: \<open>final_content ''fetch(apiUrl("/x"))'' = ''apiFetch("/x")''\<close>
    by code_simp
  from update_returns_true_iff_changed[OF h] h show ?thesis
    unfolding fc by (auto simp: single_file_def)
qed

text \<open>
  C5: a file that contains neither \<^verbatim>\<open>fetch(apiUrl(\<close> nor \<^verbatim>\<open>fetch(api\<close> is not written,
  nothing is printed, and the function returns \<open>False\<close>.
\<close>

theorem update_skips_without_legacy_call:
  assumes "files w p = Some c"
    and "\<not> contains c ''fetch(apiUrl(''" and "\<not> contains c ''fetch(api''"
  shows "update_file_with_apiFetch w p = Inr (False, w)"
  using assms by (simp add: update_file_with_apiFetch_def read_text_def no_legacy_call_def)

text \<open>Witness for C5: a file with an import that pattern 1 would rewrite, and no call.\<close>

theorem update_skips_without_legacy_call_witness:
  \<open>files (single_file ''a.ts'' ''import { apiUrl } from "./apiBase"'') ''a.ts''
      = Some ''import { apiUrl } from "./apiBase"'' \<and>
   \<not> contains ''import { apiUrl } from "./apiBase"'' ''fetch(apiUrl('' \<and>
   \<not> contains ''import { apiUrl } from "./apiBase"'' ''fetch(api'' \<and>
   update_file_with_apiFetch (single_file ''a.ts'' ''import { apiUrl } from "./apiBase"'') ''a.ts''
      = Inr (False, single_file ''a.ts'' ''import { apiUrl } from "./apiBase"'')\<close>
proof -
  have h1: \<open>files (single_file ''a.ts'' ''import { apiUrl } from "./apiBase"'') ''a.ts''
      = Some ''import { apiUrl } from "./apiBase"''\<close>
    by (rule single_file_read)
  have h2: \<open>\<not> contains ''import { apiUrl } from "./apiBase"'' ''fetch(apiUrl(''\<close>
    by code_simp
  have h3: \<open>\<not> contains ''import { apiUrl } from "./apiBase"'' ''fetch(api''\<close>
    by code_simp
  from update_skips_without_legacy_call[OF h1 h2 h3] h1 h2 h3 show ?thesis by simp
qed











end
